theory Spec2Isabelle
  imports Complex_Main "HOL-Library.Word"
begin

unbundle bit_operations_syntax

section \<open>JavaScript values\<close>

text \<open>
  The fields of an entity are JavaScript numbers, that is IEEE 754 doubles. A finite
  double is modelled by the rational it denotes (the two zeros are one value: nothing in
  the program tells them apart), and the arithmetic rounds as the machine does, to the
  nearest double with ties to the even mantissa, and to an infinity on overflow. Reading a
  typed array past its end gives \<open>undefined\<close>, and arithmetic on \<open>undefined\<close> gives
  \<open>NaN\<close>; both are values of the model, since the decoders of the program store what
  they read without a length check.
\<close>

datatype jsnum = Num rat | PosInf | NegInf | NaN | Undefined

text \<open>Rounding a rational to the nearest integer, ties to the even one.\<close>

definition round_half_even :: "rat \<Rightarrow> int" where
  "round_half_even r =
     (let f = \<lfloor>r\<rfloor>; d = r - of_int f
      in if d < 1 / 2 then f else if 1 / 2 < d then f + 1 else if even f then f else f + 1)"

text \<open>
  The doubles are the numbers \<open>m * 2 ^ j / 2 ^ 1074\<close> with \<open>\<bar>m\<bar> < 2 ^ 53\<close> and
  \<open>j \<le> 2045\<close>. For a number \<open>q\<close> already multiplied by \<open>2 ^ 1074\<close>, \<open>ulp_exp 0 q\<close>
  is the exponent \<open>j\<close> of the spacing of the doubles around it: the least one with
  \<open>\<bar>q\<bar> < 2 ^ (53 + j)\<close>, and 2045 beyond the largest double.
\<close>

function ulp_exp :: "nat \<Rightarrow> rat \<Rightarrow> nat" where
  "ulp_exp j q = (if j < 2045 \<and> 2 ^ (53 + j) \<le> \<bar>q\<bar> then ulp_exp (Suc j) q else j)"
  by pat_completeness auto
termination
  by (relation "measure (\<lambda>(j, q). 2045 - j)") auto

declare ulp_exp.simps [simp del]

text \<open>The double that an exact result is rounded to.\<close>

definition to_double :: "rat \<Rightarrow> jsnum" where
  "to_double q =
     (let scaled = q * 2 ^ 1074;
          j = ulp_exp 0 scaled;
          m = round_half_even (scaled / 2 ^ j);
          r = of_int m * 2 ^ j / 2 ^ 1074
      in if 2 ^ 1024 \<le> r then PosInf else if r \<le> - (2 ^ 1024) then NegInf else Num r)"

text \<open>\<open>a + b\<close> and \<open>a - b\<close> (so \<open>a += b\<close> and \<open>a -= b\<close>), and \<open>a * b\<close> for finite numbers.\<close>

fun js_add :: "jsnum \<Rightarrow> jsnum \<Rightarrow> jsnum" where
  "js_add (Num a) (Num b) = to_double (a + b)"
| "js_add NaN _ = NaN"
| "js_add _ NaN = NaN"
| "js_add Undefined _ = NaN"
| "js_add _ Undefined = NaN"
| "js_add PosInf NegInf = NaN"
| "js_add NegInf PosInf = NaN"
| "js_add PosInf _ = PosInf"
| "js_add _ PosInf = PosInf"
| "js_add NegInf _ = NegInf"
| "js_add _ NegInf = NegInf"

fun js_sub :: "jsnum \<Rightarrow> jsnum \<Rightarrow> jsnum" where
  "js_sub (Num a) (Num b) = to_double (a - b)"
| "js_sub NaN _ = NaN"
| "js_sub _ NaN = NaN"
| "js_sub Undefined _ = NaN"
| "js_sub _ Undefined = NaN"
| "js_sub PosInf PosInf = NaN"
| "js_sub NegInf NegInf = NaN"
| "js_sub PosInf _ = PosInf"
| "js_sub _ PosInf = NegInf"
| "js_sub NegInf _ = NegInf"
| "js_sub _ NegInf = PosInf"

definition js_mul :: "rat \<Rightarrow> rat \<Rightarrow> jsnum" where
  "js_mul a b = to_double (a * b)"

text \<open>\<open>a > b\<close> and \<open>a < b\<close>: false as soon as one side is \<open>NaN\<close> or \<open>undefined\<close>.\<close>

fun js_gt :: "jsnum \<Rightarrow> jsnum \<Rightarrow> bool" where
  "js_gt (Num a) (Num b) = (a > b)"
| "js_gt PosInf (Num b) = True"
| "js_gt PosInf NegInf = True"
| "js_gt (Num a) NegInf = True"
| "js_gt _ _ = False"

fun js_lt :: "jsnum \<Rightarrow> jsnum \<Rightarrow> bool" where
  "js_lt (Num a) (Num b) = (a < b)"
| "js_lt (Num a) PosInf = True"
| "js_lt NegInf PosInf = True"
| "js_lt NegInf (Num b) = True"
| "js_lt _ _ = False"

text \<open>\<open>a !== b\<close>: \<open>NaN\<close> differs from everything, itself included.\<close>

fun js_neq :: "jsnum \<Rightarrow> jsnum \<Rightarrow> bool" where
  "js_neq (Num a) (Num b) = (a \<noteq> b)"
| "js_neq PosInf PosInf = False"
| "js_neq NegInf NegInf = False"
| "js_neq Undefined Undefined = False"
| "js_neq _ _ = True"

text \<open>
  Storing a number into a \<open>Uint16Array\<close>: the fraction is dropped (towards zero), the
  integer is taken modulo \<open>2 ^ 16\<close>; the infinities, \<open>NaN\<close> and \<open>undefined\<close> are
  stored as 0.
\<close>

fun to_uint16 :: "jsnum \<Rightarrow> 16 word" where
  "to_uint16 (Num a) = word_of_int (if 0 \<le> a then \<lfloor>a\<rfloor> else \<lceil>a\<rceil>)"
| "to_uint16 PosInf = 0"
| "to_uint16 NegInf = 0"
| "to_uint16 NaN = 0"
| "to_uint16 Undefined = 0"

text \<open>
  A binary message is given as the list of its 16-bit words, that is as the
  \<open>Uint16Array\<close> which both worlds make of the buffer they receive. \<open>state[i]\<close> is
  the element, or \<open>undefined\<close> (\<open>None\<close>) past the end.
\<close>

definition rd :: "16 word list \<Rightarrow> nat \<Rightarrow> 16 word option" where
  "rd state i = (if i < length state then Some (state ! i) else None)"

text \<open>The value read, as a number to be stored in a field.\<close>

fun num_of :: "16 word option \<Rightarrow> jsnum" where
  "num_of (Some v) = Num (of_int (uint v))"
| "num_of None = Undefined"

text \<open>The value read, as operand of a bitwise operator: \<open>undefined\<close> counts as 0.\<close>

fun to_int32 :: "16 word option \<Rightarrow> 32 word" where
  "to_int32 (Some v) = ucast v"
| "to_int32 None = 0"

section \<open>Entities\<close>

text \<open>
  Class \<open>Entity\<close>. The fields keep their names, prefixed with \<open>e_\<close>. Objects live in a
  store and are handled by reference, since the server reaches an entity both through the
  entity array and through the binding of its client.
\<close>

type_synonym ref = nat

record entity =
  e_id :: int
  e_x :: jsnum
  e_y :: jsnum
  e_type :: jsnum
  e_faceLeft :: bool
  e_moving :: bool
  e_left :: bool
  e_right :: bool
  e_up :: bool
  e_down :: bool

text \<open>The constructor: \<open>new Entity(id, x, y, type)\<close> with the field initialisers.\<close>

definition new_Entity :: "int \<Rightarrow> jsnum \<Rightarrow> jsnum \<Rightarrow> jsnum \<Rightarrow> entity" where
  "new_Entity i x y t =
     \<lparr>e_id = i, e_x = x, e_y = y, e_type = t, e_faceLeft = True, e_moving = False,
      e_left = False, e_right = False, e_up = False, e_down = False\<rparr>"

definition updateState ::
  "entity \<Rightarrow> jsnum \<Rightarrow> jsnum \<Rightarrow> jsnum \<Rightarrow> bool \<Rightarrow> bool \<Rightarrow> bool \<Rightarrow> bool \<Rightarrow> entity" where
  "updateState e x y t l r u d =
     e\<lparr>e_x := x, e_y := y, e_type := t, e_left := l, e_right := r, e_up := u, e_down := d\<rparr>"

section \<open>The shared world and its movement integrator\<close>

definition LEFT :: int where "LEFT = 1"
definition RIGHT :: int where "RIGHT = 2"
definition UP :: int where "UP = 4"
definition DOWN :: int where "DOWN = 8"

text \<open>\<open>(controls & FLAG) !== 0\<close> on a value read from a \<open>Uint16Array\<close>.\<close>

definition flag_set :: "16 word option \<Rightarrow> int \<Rightarrow> bool" where
  "flag_set controls flag = (to_int32 controls AND word_of_int flag \<noteq> 0)"

definition SERVER_UPDATES_PER_SECOND :: rat where "SERVER_UPDATES_PER_SECOND = 20"
definition CLIENT_UPDATES_PER_SECOND :: rat where "CLIENT_UPDATES_PER_SECOND = 40"
definition MOVE_SPEED :: rat where "MOVE_SPEED = 8"

text \<open>
  Class \<open>AbstractWorld\<close>: the entity array holds references into the object store
  \<open>heap\<close>; \<open>nextRef\<close> is the address the next \<open>new Entity\<close> gets. The map is the
  interface \<open>WorldMap\<close>, of which the world uses \<open>blockedAt\<close> alone.
\<close>

record world =
  heap :: "ref \<Rightarrow> entity"
  nextRef :: ref
  entities :: "ref list"
  blockedAt :: "jsnum \<Rightarrow> jsnum \<Rightarrow> bool"
  stepSize :: rat

text \<open>
  The body of the loop of \<open>moveEntities\<close>, for one entity that is not excluded, in two
  parts: the candidate position \<open>(nx, ny)\<close>, then the updates of the entity.
\<close>

definition candidate :: "jsnum \<Rightarrow> entity \<Rightarrow> jsnum \<times> jsnum" where
  "candidate moveStep e =
     (let nx = e_x e;
          ny = e_y e;
          ny = (if e_up e then js_sub ny moveStep else ny);
          ny = (if e_down e then js_add ny moveStep else ny);
          nx = (if e_left e then js_sub nx moveStep else nx);
          nx = (if e_right e then js_add nx moveStep else nx)
      in (nx, ny))"

definition moveEntity :: "(jsnum \<Rightarrow> jsnum \<Rightarrow> bool) \<Rightarrow> jsnum \<Rightarrow> entity \<Rightarrow> entity" where
  "moveEntity blocked moveStep e =
     (let (nx, ny) = candidate moveStep e;
          e = (if js_gt nx (e_x e) then e\<lparr>e_faceLeft := False\<rparr> else e);
          e = (if js_lt nx (e_x e) then e\<lparr>e_faceLeft := True\<rparr> else e);
          e = e\<lparr>e_moving := (js_neq (e_x e) nx \<or> js_neq (e_y e) ny)\<rparr>
      in if e_moving e then
           (if \<not> blocked nx ny then e\<lparr>e_x := nx, e_y := ny\<rparr> else e)
         else e)"

definition moveEntities :: "'a world_scheme \<Rightarrow> ref option \<Rightarrow> 'a world_scheme" where
  "moveEntities w exclude =
     (let moveStep = js_mul MOVE_SPEED (stepSize w)
      in w\<lparr>heap :=
             fold (\<lambda>r h. if Some r = exclude then h
                         else h(r := moveEntity (blockedAt w) moveStep (h r)))
                  (entities w) (heap w)\<rparr>)"

section \<open>The client world\<close>

text \<open>Class \<open>ClientWorld\<close> (the channel to the server is not part of the model).\<close>

record client_world = world +
  myId :: int
  lastSequenceNumber :: int
  nameById :: "int \<rightharpoonup> string"
  localSequenceNumber :: rat

text \<open>\<open>this.entities.find(entity => entity.id === id)\<close>: the first such object.\<close>

definition find_entity :: "'a world_scheme \<Rightarrow> int \<Rightarrow> ref option" where
  "find_entity w i = find (\<lambda>r. e_id (heap w r) = i) (entities w)"

definition getLocalEntity :: "'a client_world_scheme \<Rightarrow> ref option" where
  "getLocalEntity w = find_entity w (myId w)"

text \<open>
  The sequence number of a snapshot:
  \<open>state[0] | ((state[1] << 16) & 0xFFFF0000)\<close>, a signed 32-bit integer.
\<close>

definition decodeSeq :: "16 word list \<Rightarrow> int" where
  "decodeSeq state =
     sint (to_int32 (rd state 0) OR (push_bit 16 (to_int32 (rd state 1)) AND 0xFFFF0000))"

text \<open>
  The body of the loop of \<open>handleState\<close> for one record: the words \<open>id\<close>, \<open>x\<close>,
  \<open>y\<close>, \<open>type\<close>, \<open>controls\<close> as read from the array (only \<open>id\<close> is known to be in
  range). The result is the world and the entity that the record mentions.
\<close>

definition applyRecord ::
  "client_world \<Rightarrow> int \<Rightarrow> 16 word option \<Rightarrow> 16 word option \<Rightarrow> 16 word option \<Rightarrow>
   16 word option \<Rightarrow> client_world \<times> ref" where
  "applyRecord w i x y t controls =
     (let (w, entity, created) =
            (case find_entity w i of
               Some r \<Rightarrow> (w, r, False)
             | None \<Rightarrow>
                 (w\<lparr>heap := (heap w)(nextRef w := new_Entity i (Num 0) (Num 0) (Num 0)),
                    nextRef := nextRef w + 1,
                    entities := entities w @ [nextRef w]\<rparr>, nextRef w, True));
          localEntity = getLocalEntity w
      in if Some entity \<noteq> localEntity \<or> created then
           (let left = flag_set controls LEFT;
                right = flag_set controls RIGHT;
                up = flag_set controls UP;
                down = flag_set controls DOWN
            in (w\<lparr>heap := (heap w)(entity :=
                     updateState (heap w entity) (num_of x) (num_of y) (num_of t)
                       left right up down)\<rparr>, entity))
         else (w, entity))"

text \<open>The loop \<open>while (index < state.length)\<close>, five words a turn.\<close>

function applyLoop ::
  "16 word list \<Rightarrow> nat \<Rightarrow> client_world \<Rightarrow> ref list \<Rightarrow> client_world \<times> ref list" where
  "applyLoop state index w entitiesInUpdate =
     (if index < length state then
        (let res = applyRecord w (uint (state ! index)) (rd state (index + 1))
                     (rd state (index + 2)) (rd state (index + 3)) (rd state (index + 4))
         in applyLoop state (index + 5) (fst res) (entitiesInUpdate @ [snd res]))
      else (w, entitiesInUpdate))"
  by pat_completeness auto
termination
  by (relation "measure (\<lambda>(state, index, w, u). length state - index)") auto

declare applyLoop.simps [simp del]

text \<open>
  Dropping the entities that the update does not mention: for each entity of a copy of
  the array, \<open>splice(indexOf(entity), 1)\<close> unless the update includes it.
\<close>

definition removeUnmentioned :: "ref list \<Rightarrow> ref list \<Rightarrow> ref list" where
  "removeUnmentioned entitiesInUpdate es =
     fold (\<lambda>r acc. if r \<in> set entitiesInUpdate then acc else remove1 r acc) es es"

definition handleState :: "client_world \<Rightarrow> 16 word list \<Rightarrow> client_world" where
  "handleState w state =
     (let seq = decodeSeq state
      in if seq \<le> lastSequenceNumber w then w
         else
           (let w = w\<lparr>lastSequenceNumber := seq\<rparr>;
                (w, entitiesInUpdate) = applyLoop state 2 w [];
                w = w\<lparr>entities := removeUnmentioned entitiesInUpdate (entities w)\<rparr>;
                step = SERVER_UPDATES_PER_SECOND / CLIENT_UPDATES_PER_SECOND;
                stepsAhead =
                  \<lfloor>(localSequenceNumber w - of_int (lastSequenceNumber w)) / step\<rfloor>
            in if stepsAhead > 0 then
                 ((\<lambda>w. moveEntities w (getLocalEntity w)) ^^ nat stepsAhead) w
               else w\<lparr>localSequenceNumber := of_int (lastSequenceNumber w)\<rparr>))"

section \<open>The transport\<close>

datatype readyState = Connecting | Open | Closing | Closed

datatype callback = OnConnect | OnDisconnect

subsection \<open>The client side: class \<open>WebChannel\<close>\<close>

text \<open>
  The two channel fields say whether the field holds a channel (it is \<open>undefined\<close>
  before the server's channel arrives and after it closed); the two callback fields say
  whether a callback is set; \<open>ch_fired\<close> lists the callbacks invoked so far.
\<close>

record WebChannel =
  ch_orderedChannel :: bool
  ch_unorderedChannel :: bool
  ch_onConnect :: bool
  ch_onDisconnect :: bool
  ch_fired :: "callback list"

definition ch_connected :: "WebChannel \<Rightarrow> bool" where
  "ch_connected c = (ch_orderedChannel c \<and> ch_unorderedChannel c)"

definition receiveOrderedChannel :: "WebChannel \<Rightarrow> WebChannel" where
  "receiveOrderedChannel c = c\<lparr>ch_orderedChannel := True\<rparr>"

definition receiveUnorderedChannel :: "WebChannel \<Rightarrow> WebChannel" where
  "receiveUnorderedChannel c = c\<lparr>ch_unorderedChannel := True\<rparr>"

text \<open>
  The two status handlers; \<open>state\<close> is what \<open>readyState\<close> of the channel gives when
  the handler runs.
\<close>

definition handleUnorderedReceiveChannelStatusChange ::
  "readyState \<Rightarrow> WebChannel \<Rightarrow> WebChannel" where
  "handleUnorderedReceiveChannelStatusChange state c =
     (if ch_unorderedChannel c then
        (if state = Open then
           (if ch_onConnect c \<and> ch_connected c then c\<lparr>ch_fired := ch_fired c @ [OnConnect]\<rparr>
            else c)
         else
           (let c = (if ch_connected c then
                       (if ch_onDisconnect c then c\<lparr>ch_fired := ch_fired c @ [OnDisconnect]\<rparr>
                        else c)
                     else c)
            in c\<lparr>ch_unorderedChannel := False\<rparr>))
      else c)"

definition handleOrderedReceiveChannelStatusChange ::
  "readyState \<Rightarrow> WebChannel \<Rightarrow> WebChannel" where
  "handleOrderedReceiveChannelStatusChange state c =
     (if ch_orderedChannel c then
        (if state = Open then
           (if ch_onConnect c \<and> ch_connected c then c\<lparr>ch_fired := ch_fired c @ [OnConnect]\<rparr>
            else c)
         else
           (let c = (if ch_connected c then
                       (if ch_onDisconnect c then c\<lparr>ch_fired := ch_fired c @ [OnDisconnect]\<rparr>
                        else c)
                     else c)
            in c\<lparr>ch_orderedChannel := False\<rparr>))
      else c)"

text \<open>What the browser delivers to a \<open>WebChannel\<close>, and a run over a list of events.\<close>

datatype channel_event =
  DataChannelOrdered | DataChannelUnordered
| OrderedStatus readyState | UnorderedStatus readyState

fun channel_step :: "channel_event \<Rightarrow> WebChannel \<Rightarrow> WebChannel" where
  "channel_step DataChannelOrdered c = receiveOrderedChannel c"
| "channel_step DataChannelUnordered c = receiveUnorderedChannel c"
| "channel_step (OrderedStatus st) c = handleOrderedReceiveChannelStatusChange st c"
| "channel_step (UnorderedStatus st) c = handleUnorderedReceiveChannelStatusChange st c"

definition channel_run :: "channel_event list \<Rightarrow> WebChannel \<Rightarrow> WebChannel" where
  "channel_run evs c = fold channel_step evs c"

text \<open>A channel as its constructor leaves it, with both callbacks set by the game.\<close>

definition new_WebChannel :: WebChannel where
  "new_WebChannel =
     \<lparr>ch_orderedChannel = False, ch_unorderedChannel = False,
      ch_onConnect = True, ch_onDisconnect = True, ch_fired = []\<rparr>"

subsection \<open>The server side: classes \<open>WebChannelClient\<close> and \<open>WebChannelServer\<close>\<close>

text \<open>
  A client object is referred to by its id: the server gives every object it creates the
  next id, so the id is the address of the object. The roster \<open>clients\<close> is the array
  of these references.
\<close>

record WebChannelClient =
  cl_id :: int
  cl_username :: string
  cl_unorderedChannel :: bool
  cl_orderedChannel :: bool
  cl_unorderedChannelConnected :: bool
  cl_orderedChannelConnected :: bool

record WebChannelServer =
  clients :: "int list"
  nextId :: int
  srv_onConnect :: bool
  srv_onDisconnect :: bool
  srv_fired :: "(callback \<times> int) list"

definition cl_connected :: "WebChannelClient \<Rightarrow> bool" where
  "cl_connected c = (cl_unorderedChannelConnected c \<and> cl_orderedChannelConnected c)"

text \<open>The constructor of \<open>WebChannelClient\<close> creates both channels at once.\<close>

definition new_WebChannelClient :: "int \<Rightarrow> string \<Rightarrow> WebChannelClient" where
  "new_WebChannelClient i username =
     \<lparr>cl_id = i, cl_username = username, cl_unorderedChannel = True,
      cl_orderedChannel = True, cl_unorderedChannelConnected = False,
      cl_orderedChannelConnected = False\<rparr>"

definition connectionRequest ::
  "WebChannelServer \<Rightarrow> string \<Rightarrow> WebChannelServer \<times> WebChannelClient" where
  "connectionRequest s username =
     (let remoteClient = new_WebChannelClient (nextId s) username;
          s = s\<lparr>nextId := nextId s + 1\<rparr>
      in (s\<lparr>clients := clients s @ [cl_id remoteClient]\<rparr>, remoteClient))"

definition removeClient :: "WebChannelServer \<Rightarrow> int \<Rightarrow> WebChannelServer" where
  "removeClient s client =
     (if client \<in> set (clients s) then s\<lparr>clients := remove1 client (clients s)\<rparr> else s)"

definition handleOrderedStatusChange ::
  "readyState \<Rightarrow> WebChannelServer \<times> WebChannelClient \<Rightarrow>
   WebChannelServer \<times> WebChannelClient" where
  "handleOrderedStatusChange state sc =
     (let (s, c) = sc
      in if cl_orderedChannel c then
           (if state = Open then
              (let c = c\<lparr>cl_orderedChannelConnected := True\<rparr>
               in if cl_connected c then
                    (if srv_onConnect s
                     then (s\<lparr>srv_fired := srv_fired s @ [(OnConnect, cl_id c)]\<rparr>, c)
                     else (s, c))
                  else (s, c))
            else
              (let s = (if cl_connected c then
                          (let s = removeClient s (cl_id c)
                           in if srv_onDisconnect s
                              then s\<lparr>srv_fired := srv_fired s @ [(OnDisconnect, cl_id c)]\<rparr>
                              else s)
                        else s)
               in (s, c\<lparr>cl_unorderedChannelConnected := False, cl_orderedChannel := False\<rparr>)))
         else (s, c))"

definition handleUnorderedStatusChange ::
  "readyState \<Rightarrow> WebChannelServer \<times> WebChannelClient \<Rightarrow>
   WebChannelServer \<times> WebChannelClient" where
  "handleUnorderedStatusChange state sc =
     (let (s, c) = sc
      in if cl_unorderedChannel c then
           (if state = Open then
              (let c = c\<lparr>cl_unorderedChannelConnected := True\<rparr>
               in if cl_connected c then
                    (if srv_onConnect s
                     then (s\<lparr>srv_fired := srv_fired s @ [(OnConnect, cl_id c)]\<rparr>, c)
                     else (s, c))
                  else (s, c))
            else
              (let s = (if cl_connected c then
                          (let s = removeClient s (cl_id c)
                           in if srv_onDisconnect s
                              then s\<lparr>srv_fired := srv_fired s @ [(OnDisconnect, cl_id c)]\<rparr>
                              else s)
                        else s)
               in (s, c\<lparr>cl_unorderedChannelConnected := False, cl_unorderedChannel := False\<rparr>)))
         else (s, c))"

text \<open>
  The rosters the server can hold: it starts empty, and only \<open>connectionRequest\<close> and
  \<open>removeClient\<close> write it.
\<close>

inductive reachable :: "WebChannelServer \<Rightarrow> bool" where
  start: "clients s = [] \<Longrightarrow> nextId s = 1 \<Longrightarrow> reachable s"
| connect: "reachable s \<Longrightarrow> reachable (fst (connectionRequest s username))"
| remove: "reachable s \<Longrightarrow> reachable (removeClient s client)"
| other: "reachable s \<Longrightarrow> clients s' = clients s \<Longrightarrow> nextId s' = nextId s \<Longrightarrow> reachable s'"

code_pred reachable .

section \<open>The server world\<close>

record server_world = world +
  nextEntityId :: int
  clientToEntity :: "int \<rightharpoonup> ref"
  sequenceNumber :: int

text \<open>
  \<open>createState\<close>: the numbers pushed to \<open>data\<close>, then \<open>new Uint16Array(data)\<close>.
\<close>

definition controlBits :: "entity \<Rightarrow> int" where
  "controlBits e =
     0 + (if e_left e then LEFT else 0) + (if e_right e then RIGHT else 0)
       + (if e_up e then UP else 0) + (if e_down e then DOWN else 0)"

definition createState :: "'a world_scheme \<Rightarrow> int \<Rightarrow> 16 word list" where
  "createState w sequence =
     (let data = [Num (of_int sequence)];
          data = fold (\<lambda>r data.
                   (let e = heap w r
                    in data @ [Num (of_int (e_id e)), e_x e, e_y e, e_type e,
                               Num (of_int (controlBits e))]))
                   (entities w) data
      in map to_uint16 data)"

definition clientStateReceived ::
  "server_world \<Rightarrow> WebChannelClient \<Rightarrow> 16 word list \<Rightarrow> server_world" where
  "clientStateReceived w client array =
     (case clientToEntity w (cl_id client) of
        None \<Rightarrow> w
      | Some entity \<Rightarrow>
          (if \<not> blockedAt w (num_of (rd array 0)) (num_of (rd array 1)) then
             (let left = flag_set (rd array 2) LEFT;
                  right = flag_set (rd array 2) RIGHT;
                  up = flag_set (rd array 2) UP;
                  down = flag_set (rd array 2) DOWN
              in w\<lparr>heap := (heap w)(entity :=
                     updateState (heap w entity) (num_of (rd array 0)) (num_of (rd array 1))
                       (e_type (heap w entity)) left right up down)\<rparr>)
           else w))"

section \<open>Reference semantics and invariants\<close>

text \<open>
  The movement rule in the words of the specification (section 4.6), for an entity at
  the numeric position \<open>(x, y)\<close> and a per-tick displacement \<open>d\<close>: every active
  direction flag adds its displacement, the two axes are summed without normalisation;
  \<open>moving\<close> says whether the candidate differs from the current position; the facing
  follows the sign of the horizontal displacement when there is one; the candidate is
  committed only where the map does not block it.
\<close>

definition reference_step ::
  "(jsnum \<Rightarrow> jsnum \<Rightarrow> bool) \<Rightarrow> rat \<Rightarrow> rat \<Rightarrow> rat \<Rightarrow> entity \<Rightarrow> entity" where
  "reference_step blocked d x y e =
     (let dx = (if e_right e then d else 0) - (if e_left e then d else 0);
          dy = (if e_down e then d else 0) - (if e_up e then d else 0);
          cand = (x + dx, y + dy);
          mv = (cand \<noteq> (x, y));
          face = (if 0 < dx then False else if dx < 0 then True else e_faceLeft e);
          position = (if mv \<and> \<not> blocked (Num (fst cand)) (Num (snd cand))
                      then cand else (x, y))
      in e\<lparr>e_x := Num (fst position), e_y := Num (snd position),
           e_faceLeft := face, e_moving := mv\<rparr>)"

text \<open>
  The numbers on which the arithmetic of the program is exact: the multiples of one half
  below \<open>2 ^ 51\<close> in magnitude. Sums and differences of two of them are doubles.
\<close>

definition small_half :: "rat \<Rightarrow> bool" where
  "small_half q = (of_int \<lfloor>2 * q\<rfloor> = 2 * q \<and> \<bar>2 * q\<bar> < 2 ^ 52)"




text \<open>No entity of the world stands where the map says blocked.\<close>

definition unblocked :: "'a world_scheme \<Rightarrow> bool" where
  "unblocked w = (\<forall>r\<in>set (entities w). \<not> blockedAt w (e_x (heap w r)) (e_y (heap w r)))"

section \<open>Initial and example states\<close>

text \<open>
  The constructors of the two worlds and of the server, for a given map. An address that
  holds no object yet is given a blank entity.
\<close>

definition blank :: entity where
  "blank = new_Entity 0 (Num 0) (Num 0) (Num 0)"

definition new_ClientWorld :: "(jsnum \<Rightarrow> jsnum \<Rightarrow> bool) \<Rightarrow> client_world" where
  "new_ClientWorld blocked =
     \<lparr>heap = (\<lambda>r. blank), nextRef = 0, entities = [], blockedAt = blocked,
      stepSize = SERVER_UPDATES_PER_SECOND / CLIENT_UPDATES_PER_SECOND,
      myId = 0, lastSequenceNumber = 0, nameById = Map.empty, localSequenceNumber = 0\<rparr>"

definition new_ServerWorld :: "(jsnum \<Rightarrow> jsnum \<Rightarrow> bool) \<Rightarrow> server_world" where
  "new_ServerWorld blocked =
     \<lparr>heap = (\<lambda>r. blank), nextRef = 0, entities = [], blockedAt = blocked, stepSize = 1,
      nextEntityId = 1, clientToEntity = Map.empty, sequenceNumber = 0\<rparr>"

definition new_WebChannelServer :: WebChannelServer where
  "new_WebChannelServer =
     \<lparr>clients = [], nextId = 1, srv_onConnect = True, srv_onDisconnect = True,
      srv_fired = []\<rparr>"

text \<open>A map without walls, and a map with a wall along \<open>x = 108\<close>.\<close>

definition open_map :: "jsnum \<Rightarrow> jsnum \<Rightarrow> bool" where
  "open_map x y = False"

definition wall_map :: "jsnum \<Rightarrow> jsnum \<Rightarrow> bool" where
  "wall_map x y = (x = Num 108)"

text \<open>
  A server world with the wall, holding the single entity \<open>e\<close>, bound to client 1.
\<close>

definition server_with :: "entity \<Rightarrow> server_world" where
  "server_with e =
     (new_ServerWorld wall_map)
       \<lparr>heap := (\<lambda>r. blank)(0 := e), nextRef := 1, entities := [0],
        nextEntityId := e_id e + 1, clientToEntity := [1 \<mapsto> 0]\<rparr>"

text \<open>Entity 7 of type 2 at \<open>(100, 100)\<close>, idle, and the same entity walking right.\<close>

definition idle_7 :: entity where
  "idle_7 = new_Entity 7 (Num 100) (Num 100) (Num 2)"

definition walking_7 :: entity where
  "walking_7 = idle_7\<lparr>e_right := True\<rparr>"

text \<open>
  A client that controls entity 7, predicted at \<open>(120, 100)\<close>, and also knows entity 9;
  its last accepted sequence number is 10.
\<close>

definition predicting_client :: client_world where
  "predicting_client =
     (new_ClientWorld open_map)
       \<lparr>heap := (\<lambda>r. blank)(0 := new_Entity 7 (Num 120) (Num 100) (Num 2),
                                1 := new_Entity 9 (Num 50) (Num 50) (Num 3)),
        nextRef := 2, entities := [0, 1], myId := 7, lastSequenceNumber := 10,
        localSequenceNumber := 10\<rparr>"

text \<open>A client that has been told it controls entity 7 and has seen no snapshot yet.\<close>

definition identified_client :: client_world where
  "identified_client = (new_ClientWorld open_map)\<lparr>myId := 7\<rparr>"

text \<open>A snapshot in the client's layout with two records for entity 7.\<close>

definition duplicate_snapshot :: "16 word list" where
  "duplicate_snapshot = [1, 0, 7, 100, 100, 2, 0, 7, 50, 60, 3, 1]"


section \<open>Evaluation of the example states\<close>

lemmas world_simps =
  new_ClientWorld_def new_ServerWorld_def server_with_def idle_7_def walking_7_def
  predicting_client_def identified_client_def duplicate_snapshot_def blank_def
  new_Entity_def open_map_def wall_map_def

lemmas const_simps =
  LEFT_def RIGHT_def UP_def DOWN_def MOVE_SPEED_def SERVER_UPDATES_PER_SECOND_def
  CLIENT_UPDATES_PER_SECOND_def

section \<open>Properties of the arithmetic\<close>

lemma round_half_even_of_int: "round_half_even (of_int n) = n"
  by (simp add: round_half_even_def)

lemma round_half_even_down:
  assumes "of_int f \<le> r" and "r < of_int f + 1 / 2"
  shows "round_half_even r = f"
proof -
  from assms have "\<lfloor>r\<rfloor> = f"
    by (simp add: floor_eq_iff)
  with assms show ?thesis
    by (simp add: round_half_even_def Let_def)
qed

lemma ulp_exp_eq:
  "j \<le> k \<Longrightarrow> k \<le> 2045 \<Longrightarrow> \<bar>q\<bar> < 2 ^ (53 + k) \<Longrightarrow> k = 0 \<or> 2 ^ (52 + k) \<le> \<bar>q\<bar> \<Longrightarrow>
   ulp_exp j q = k"
proof (induction j q rule: ulp_exp.induct)
  case (1 j q)
  show ?case
  proof (cases "j = k")
    case True
    with "1.prems" show ?thesis by (subst ulp_exp.simps) simp
  next
    case False
    with "1.prems" have jk: "j < k" by simp
    then have "(2::rat) ^ (53 + j) \<le> 2 ^ (52 + k)"
      by (intro power_increasing) simp_all
    moreover from "1.prems" jk have "2 ^ (52 + k) \<le> \<bar>q\<bar>" by auto
    ultimately have big: "2 ^ (53 + j) \<le> \<bar>q\<bar>" by (rule order_trans)
    from jk "1.prems" have j2: "j < 2045" by simp
    have "ulp_exp (Suc j) q = k"
      using "1.IH" j2 big jk "1.prems" by simp
    with j2 big show ?thesis by (subst ulp_exp.simps) simp
  qed
qed

lemma ulp_exp_le:
  "j \<le> k \<Longrightarrow> \<bar>q\<bar> < 2 ^ (53 + k) \<Longrightarrow> ulp_exp j q \<le> k"
proof (induction j q rule: ulp_exp.induct)
  case (1 j q)
  show ?case
  proof (cases "j < 2045 \<and> 2 ^ (53 + j) \<le> \<bar>q\<bar>")
    case True
    with "1.prems" have "j \<noteq> k" by auto
    with "1.prems" have "Suc j \<le> k" by simp
    with "1.IH" True "1.prems" have "ulp_exp (Suc j) q \<le> k" by simp
    with True show ?thesis by (subst ulp_exp.simps) simp
  next
    case False
    with "1.prems" show ?thesis by (subst ulp_exp.simps) auto
  qed
qed

text \<open>A double is rounded to itself.\<close>

lemma to_double_exact:
  assumes "\<bar>m\<bar> < 2 ^ 53" and "k \<le> 2045"
  shows "to_double (of_int m * 2 ^ k / 2 ^ 1074) = Num (of_int m * 2 ^ k / 2 ^ 1074)"
proof -
  define scaled :: rat where "scaled = of_int m * 2 ^ k"
  define j where "j = ulp_exp 0 scaled"
  have s: "of_int m * 2 ^ k / 2 ^ 1074 * 2 ^ 1074 = scaled"
    by (simp add: scaled_def)
  have "\<bar>scaled\<bar> = of_int \<bar>m\<bar> * 2 ^ k"
    by (simp add: scaled_def abs_mult)
  also have "\<dots> < 2 ^ 53 * 2 ^ k"
    using assms(1)
    by (intro mult_strict_right_mono) (simp_all add: of_int_less_numeral_power_cancel_iff)
  finally have bound: "\<bar>scaled\<bar> < 2 ^ (53 + k)"
    by (simp add: power_add)
  then have jk: "j \<le> k"
    unfolding j_def by (intro ulp_exp_le) simp_all
  have "scaled / 2 ^ j = of_int m * (2 ^ k / 2 ^ j)"
    by (simp add: scaled_def)
  also have "(2::rat) ^ k / 2 ^ j = 2 ^ (k - j)"
    using jk by (simp add: power_diff)
  also have "of_int m * (2::rat) ^ (k - j) = of_int (m * 2 ^ (k - j))"
    by simp
  finally have r: "round_half_even (scaled / 2 ^ j) = m * 2 ^ (k - j)"
    by (simp only: round_half_even_of_int)
  have again: "of_int (m * 2 ^ (k - j)) * (2::rat) ^ j = scaled"
  proof -
    have "of_int (m * 2 ^ (k - j)) * (2::rat) ^ j = of_int m * (2 ^ (k - j) * 2 ^ j)"
      by simp
    also have "(2::rat) ^ (k - j) * 2 ^ j = 2 ^ k"
      using jk by (simp flip: power_add)
    finally show ?thesis by (simp add: scaled_def)
  qed
  have "\<bar>scaled\<bar> < 2 ^ (53 + 2045)"
  proof -
    have "(2::rat) ^ (53 + k) \<le> 2 ^ (53 + 2045)"
      using assms(2) by (intro power_increasing) simp_all
    with bound show ?thesis by simp
  qed
  then have "\<bar>scaled / 2 ^ 1074\<bar> < 2 ^ (53 + 2045) / 2 ^ 1074"
    by (simp add: abs_divide divide_strict_right_mono del: power_add)
  also have "(2::rat) ^ (53 + 2045) / 2 ^ 1074 = 2 ^ 1024"
    by (simp flip: power_diff)
  finally have fin: "\<bar>scaled / 2 ^ 1074\<bar> < 2 ^ 1024" .
  then have "\<not> 2 ^ 1024 \<le> scaled / 2 ^ 1074" and "\<not> scaled / 2 ^ 1074 \<le> - (2 ^ 1024)"
    by (simp_all add: abs_less_iff)
  then show ?thesis
    unfolding to_double_def s Let_def j_def [symmetric] r again
    by (simp add: scaled_def)
qed

lemma to_double_halves:
  assumes "\<bar>n\<bar> < 2 ^ 53"
  shows "to_double (of_int n / 2) = Num (of_int n / 2)"
proof -
  have q: "(of_int n / 2 :: rat) = of_int n * 2 ^ 1073 / 2 ^ 1074"
    by simp
  have "to_double (of_int n * 2 ^ 1073 / 2 ^ 1074) = Num (of_int n * 2 ^ 1073 / 2 ^ 1074)"
    using assms by (rule to_double_exact) simp
  then show ?thesis
    by (simp only: q [symmetric])
qed

lemma small_halfE:
  assumes "small_half q"
  obtains n :: int where "q = of_int n / 2" and "\<bar>n\<bar> < 2 ^ 52"
proof
  from assms have e: "of_int \<lfloor>2 * q\<rfloor> = 2 * q" and b: "\<bar>2 * q\<bar> < 2 ^ 52"
    unfolding small_half_def by blast+
  show "q = of_int \<lfloor>2 * q\<rfloor> / 2"
    unfolding e by simp
  from b have "\<bar>of_int \<lfloor>2 * q\<rfloor> :: rat\<bar> < 2 ^ 52"
    by (simp only: e)
  then have "(of_int \<bar>\<lfloor>2 * q\<rfloor>\<bar> :: rat) < 2 ^ 52"
    by (simp only: of_int_abs)
  then show "\<bar>\<lfloor>2 * q\<rfloor>\<bar> < 2 ^ 52"
    by (simp only: of_int_less_numeral_power_cancel_iff)
qed

lemma small_half_exact:
  assumes "small_half a"
  shows "to_double a = Num a"
proof -
  from assms obtain n where a: "a = of_int n / 2" and "\<bar>n\<bar> < 2 ^ 52"
    by (rule small_halfE)
  then have "\<bar>n\<bar> < 2 ^ 53" by simp
  then show ?thesis unfolding a by (rule to_double_halves)
qed

text \<open>On the small multiples of one half, sums and differences are exact.\<close>

lemma small_half_sum:
  assumes "small_half a" and "small_half b"
  shows "to_double (a + b) = Num (a + b)" and "to_double (a - b) = Num (a - b)"
proof -
  from assms(1) obtain n where a: "a = of_int n / 2" and n: "\<bar>n\<bar> < 2 ^ 52"
    by (rule small_halfE)
  from assms(2) obtain m where b: "b = of_int m / 2" and m: "\<bar>m\<bar> < 2 ^ 52"
    by (rule small_halfE)
  have p: "a + b = of_int (n + m) / 2" and d: "a - b = of_int (n - m) / 2"
    by (simp_all add: a b add_divide_distrib diff_divide_distrib)
  from n m have s: "\<bar>n + m\<bar> < 2 ^ 53" and t: "\<bar>n - m\<bar> < 2 ^ 53"
    by simp_all
  from s show "to_double (a + b) = Num (a + b)"
    unfolding p by (rule to_double_halves)
  from t show "to_double (a - b) = Num (a - b)"
    unfolding d by (rule to_double_halves)
qed

text \<open>
  Far from zero the doubles are sparse: at \<open>2 ^ 60\<close> they are 256 apart, and adding 8
  changes nothing.
\<close>

lemma to_double_rounds: "to_double (2 ^ 60 + 8) = Num (2 ^ 60)"
proof -
  have j: "ulp_exp 0 ((2 ^ 60 + 8) * 2 ^ 1074) = 1082"
    by (rule ulp_exp_eq) simp_all
  have m: "round_half_even ((2 ^ 60 + 8) * 2 ^ 1074 / 2 ^ 1082) = 2 ^ 52"
    by (rule round_half_even_down) simp_all
  show ?thesis
    unfolding to_double_def Let_def j m by simp
qed

section \<open>Properties of the movement integrator\<close>

lemma candidate_Num:
  assumes "e_x e = Num x" and "e_y e = Num y"
    and "small_half x" and "small_half y" and "small_half d"
  shows "candidate (Num d) e =
     (Num (x + ((if e_right e then d else 0) - (if e_left e then d else 0))),
      Num (y + ((if e_down e then d else 0) - (if e_up e then d else 0))))"
proof -
  note exact = small_half_exact [OF assms(3)] small_half_exact [OF assms(4)]
    small_half_sum [OF assms(3) assms(5)] small_half_sum [OF assms(4) assms(5)]
  show ?thesis
    using assms(1,2) by (simp add: candidate_def Let_def exact)
qed

lemma moveEntity_reference:
  assumes "e_x e = Num x" and "e_y e = Num y"
    and "small_half x" and "small_half y" and "small_half d"
  shows "moveEntity blocked (Num d) e = reference_step blocked d x y e"
proof -
  define dx where "dx = (if e_right e then d else 0) - (if e_left e then d else 0)"
  define dy where "dy = (if e_down e then d else 0) - (if e_up e then d else 0)"
  have c: "candidate (Num d) e = (Num (x + dx), Num (y + dy))"
    using assms by (simp add: candidate_Num dx_def dy_def)
  have r: "reference_step blocked d x y e =
     (let cand = (x + dx, y + dy);
          mv = (cand \<noteq> (x, y));
          face = (if 0 < dx then False else if dx < 0 then True else e_faceLeft e);
          position = (if mv \<and> \<not> blocked (Num (fst cand)) (Num (snd cand))
                      then cand else (x, y))
      in e\<lparr>e_x := Num (fst position), e_y := Num (snd position),
           e_faceLeft := face, e_moving := mv\<rparr>)"
    by (simp only: reference_step_def dx_def dy_def Let_def)
  show ?thesis
    unfolding r using assms(1,2) by (auto simp: moveEntity_def c Let_def)
qed

text \<open>
  Where the doubles are sparse the entity does not move at all: at \<open>x = 2 ^ 60\<close> a step
  of 8 to the right gives the candidate \<open>x\<close> itself, so \<open>moving\<close> is false and the facing
  stays.
\<close>

lemma moveEntity_far_away:
  "moveEntity open_map (Num 8) ((new_Entity 7 (Num (2 ^ 60)) (Num 100) (Num 2))\<lparr>e_right := True\<rparr>)
     = (new_Entity 7 (Num (2 ^ 60)) (Num 100) (Num 2))\<lparr>e_right := True\<rparr>"
proof -
  have "js_add (Num (2 ^ 60)) (Num 8) = Num (2 ^ 60)"
    by (simp only: js_add.simps to_double_rounds)
  then show ?thesis
    by (simp add: moveEntity_def candidate_def new_Entity_def Let_def)
qed

text \<open>The loop over the entity array touches an object once for each of its places.\<close>

lemma fold_move_other:
  "r \<notin> set rs \<Longrightarrow>
   fold (\<lambda>r h. if Some r = ex then h else h(r := f (h r))) rs h r = h r"
  by (induction rs arbitrary: h) auto

lemma fold_move_once:
  "distinct rs \<Longrightarrow> r \<in> set rs \<Longrightarrow> Some r \<noteq> ex \<Longrightarrow>
   fold (\<lambda>r h. if Some r = ex then h else h(r := f (h r))) rs h r = f (h r)"
proof (induction rs arbitrary: h)
  case Nil
  then show ?case by simp
next
  case (Cons a rs)
  show ?case
  proof (cases "a = r")
    case True
    with Cons.prems have "r \<notin> set rs" by simp
    with True Cons.prems(3) show ?thesis by (simp add: fold_move_other)
  next
    case False
    with Cons.prems have "r \<in> set rs" and "distinct rs" by auto
    with False Cons.IH [OF \<open>distinct rs\<close> \<open>r \<in> set rs\<close> Cons.prems(3)]
    show ?thesis by auto
  qed
qed

text \<open>
  Claim C7. One call of \<open>moveEntities\<close> leaves every entity of the array that is not
  excluded as the reference rule says: the candidate is the position plus the
  displacement of every active flag, \<open>moving\<close> tells whether the candidate differs from
  the position, \<open>faceLeft\<close> follows the sign of a non-zero horizontal displacement, and
  the candidate is committed only if the map does not block it. The entity array holds
  each object once; the position and the displacement \<open>MOVE_SPEED * stepSize\<close> are
  multiples of one half below \<open>2 ^ 51\<close> in magnitude, where the doubles of the program add
  without rounding.
\<close>

theorem moveEntities_reference_semantics:
  assumes "distinct (entities w)" and "r \<in> set (entities w)" and "Some r \<noteq> exclude"
    and "e_x (heap w r) = Num x" and "e_y (heap w r) = Num y"
    and "small_half x" and "small_half y" and "small_half (MOVE_SPEED * stepSize w)"
  shows "heap (moveEntities w exclude) r =
           reference_step (blockedAt w) (MOVE_SPEED * stepSize w) x y (heap w r)"
proof -
  have "js_mul MOVE_SPEED (stepSize w) = Num (MOVE_SPEED * stepSize w)"
    using assms(8) by (simp add: js_mul_def small_half_exact)
  with assms show ?thesis
    by (simp add: moveEntities_def Let_def fold_move_once moveEntity_reference)
qed

theorem moveEntities_reference_semantics_witness:
  "distinct (entities (server_with walking_7)) \<and>
   0 \<in> set (entities (server_with walking_7)) \<and>
   Some 0 \<noteq> (None :: ref option) \<and>
   e_x (heap (server_with walking_7) 0) = Num 100 \<and>
   e_y (heap (server_with walking_7) 0) = Num 100 \<and>
   small_half 100 \<and> small_half 92 \<and>
   small_half (MOVE_SPEED * stepSize (server_with walking_7)) \<and>
   heap (moveEntities (server_with walking_7) None) 0 =
     walking_7\<lparr>e_faceLeft := False, e_moving := True\<rparr> \<and>
   heap (moveEntities (server_with (walking_7\<lparr>e_down := True, e_x := Num 92\<rparr>)) None) 0 =
     walking_7\<lparr>e_down := True, e_x := Num 100, e_y := Num 108, e_faceLeft := False,
       e_moving := True\<rparr>"
proof -
  have s: "small_half 100" "small_half 92" "small_half 8"
    by (simp_all add: small_half_def)
  have a: "heap (moveEntities (server_with walking_7) None) 0 =
      reference_step wall_map 8 100 100 walking_7"
    using s moveEntities_reference_semantics [of "server_with walking_7" 0 None 100 100]
    by (simp add: world_simps const_simps)
  have b: "heap (moveEntities (server_with (walking_7\<lparr>e_down := True, e_x := Num 92\<rparr>)) None) 0 =
      reference_step wall_map 8 92 100 (walking_7\<lparr>e_down := True, e_x := Num 92\<rparr>)"
    using s moveEntities_reference_semantics
      [of "server_with (walking_7\<lparr>e_down := True, e_x := Num 92\<rparr>)" 0 None 92 100]
    by (simp add: world_simps const_simps)
  show ?thesis
    unfolding a b using s by (simp add: world_simps const_simps reference_step_def Let_def)
qed

lemma moveEntity_unblocked:
  "\<not> blocked (e_x e) (e_y e) \<Longrightarrow>
   \<not> blocked (e_x (moveEntity blocked d e)) (e_y (moveEntity blocked d e))"
  by (cases "candidate d e") (simp add: moveEntity_def Let_def)

lemma fold_move_unblocked:
  "\<forall>r\<in>S. \<not> blocked (e_x (h r)) (e_y (h r)) \<Longrightarrow>
   \<forall>r\<in>S. \<not> blocked
     (e_x (fold (\<lambda>r h. if Some r = ex then h else h(r := moveEntity blocked d (h r))) rs h r))
     (e_y (fold (\<lambda>r h. if Some r = ex then h else h(r := moveEntity blocked d (h r))) rs h r))"
proof (induction rs arbitrary: h)
  case Nil
  then show ?case by simp
next
  case (Cons a rs)
  have "\<forall>r\<in>S. \<not> blocked
          (e_x ((if Some a = ex then h else h(a := moveEntity blocked d (h a))) r))
          (e_y ((if Some a = ex then h else h(a := moveEntity blocked d (h a))) r))"
    using Cons.prems by (auto simp: moveEntity_unblocked)
  from Cons.IH [OF this] show ?case by simp
qed

lemma moveEntities_unblocked: "unblocked w \<Longrightarrow> unblocked (moveEntities w ex)"
  unfolding unblocked_def
  using fold_move_unblocked [of "set (entities w)" "blockedAt w" "heap w" ex
      "js_mul MOVE_SPEED (stepSize w)" "entities w"]
  by (simp add: moveEntities_def Let_def)

text \<open>
  Claim C8. If no entity of a world stands on a blocked position, then after any finite
  sequence of \<open>moveEntities\<close> calls, each with any excluded entity or none, still no
  entity stands on a blocked position.
\<close>

theorem movement_never_enters_blocked:
  "unblocked w \<Longrightarrow> unblocked (fold (\<lambda>exclude w. moveEntities w exclude) excludes w)"
  by (induction excludes arbitrary: w) (simp_all add: moveEntities_unblocked)

theorem movement_never_enters_blocked_witness:
  "unblocked (server_with walking_7) \<and>
   unblocked (fold (\<lambda>exclude w. moveEntities w exclude) [None, None] (server_with walking_7)) \<and>
   e_x (heap (fold (\<lambda>exclude w. moveEntities w exclude) [None, None]
               (server_with walking_7)) 0) = Num 100"
proof -
  have h: "unblocked (server_with walking_7)"
    by (simp add: unblocked_def world_simps)
  have "small_half 8" and "small_half 108"
    by (simp_all add: small_half_def)
  then have m: "to_double 8 = Num 8" "to_double 108 = Num 108"
    by (simp_all only: small_half_exact)
  have "e_x (heap (fold (\<lambda>exclude w. moveEntities w exclude) [None, None]
               (server_with walking_7)) 0) = Num 100"
    by (simp add: moveEntities_def moveEntity_def candidate_def Let_def world_simps
        const_simps js_mul_def m)
  with h movement_never_enters_blocked [OF h, of "[None, None]"] show ?thesis by simp
qed

section \<open>Properties of the server world\<close>

lemma clientStateReceived_unbound:
  "clientToEntity w (cl_id client) = None \<Longrightarrow> clientStateReceived w client array = w"
  by (simp add: clientStateReceived_def)

lemma clientStateReceived_blocked:
  "blockedAt w (num_of (rd array 0)) (num_of (rd array 1)) \<Longrightarrow>
   clientStateReceived w client array = w"
  by (simp add: clientStateReceived_def split: option.splits)

lemma clientStateReceived_accepted:
  assumes "clientToEntity w (cl_id client) = Some entity"
    and "\<not> blockedAt w (num_of (rd array 0)) (num_of (rd array 1))"
  shows "clientStateReceived w client array =
           w\<lparr>heap := (heap w)(entity :=
               updateState (heap w entity) (num_of (rd array 0)) (num_of (rd array 1))
                 (e_type (heap w entity)) (flag_set (rd array 2) LEFT)
                 (flag_set (rd array 2) RIGHT) (flag_set (rd array 2) UP)
                 (flag_set (rd array 2) DOWN))\<rparr>"
  using assms by (simp add: clientStateReceived_def Let_def)

text \<open>
  The four flags decoded from a control word are its four low bits; a control word that
  is not there gives four flags that are off.
\<close>

lemma flag_set_bits:
  "flag_set (Some v) LEFT = bit v 0"
  "flag_set (Some v) RIGHT = bit v 1"
  "flag_set (Some v) UP = bit v 2"
  "flag_set (Some v) DOWN = bit v 3"
  "flag_set None flag = False"
proof -
  have b: "(ucast v AND (2 ^ n :: 32 word) \<noteq> 0) = bit v n" if "n < 16" for n
  proof -
    have "(ucast v AND (2 ^ n :: 32 word) \<noteq> 0) = bit (ucast v :: 32 word) n"
      using that by (simp add: and_exp_eq_0_iff_not_bit)
    also have "\<dots> = bit v n"
      using that by (simp add: bit_ucast_iff)
    finally show ?thesis .
  qed
  show "flag_set (Some v) LEFT = bit v 0"
    using b [of 0] by (simp add: flag_set_def LEFT_def)
  show "flag_set (Some v) RIGHT = bit v 1"
    using b [of 1] by (simp add: flag_set_def RIGHT_def)
  show "flag_set (Some v) UP = bit v 2"
    using b [of 2] by (simp add: flag_set_def UP_def)
  show "flag_set (Some v) DOWN = bit v 3"
    using b [of 3] by (simp add: flag_set_def DOWN_def)
  show "flag_set None flag = False"
    by (simp add: flag_set_def)
qed

lemma flag_set_rd:
  "flag_set (rd state j) LEFT = (j < length state \<and> bit (state ! j) 0)"
  "flag_set (rd state j) RIGHT = (j < length state \<and> bit (state ! j) 1)"
  "flag_set (rd state j) UP = (j < length state \<and> bit (state ! j) 2)"
  "flag_set (rd state j) DOWN = (j < length state \<and> bit (state ! j) 3)"
  by (simp_all add: rd_def flag_set_bits)

lemma num_of_rd:
  "num_of (rd state j) = (if j < length state then Num (of_int (uint (state ! j))) else Undefined)"
  by (simp add: rd_def)

text \<open>
  Claim C6. A state report from a client without a bound entity, or whose decoded
  position is blocked on the map, leaves the server world as it was. Any other report
  overwrites the position and the four input flags of the bound entity with the decoded
  values: \<open>x\<close> and \<open>y\<close> are words 0 and 1 of the report, \<open>left\<close>, \<open>right\<close>, \<open>up\<close>
  and \<open>down\<close> are bits 0, 1, 2 and 3 of word 2; a word that the report is too short to
  hold gives \<open>undefined\<close> for a coordinate and flags that are off.
\<close>

theorem clientStateReceived_validates:
  "(clientToEntity w (cl_id client) = None \<or>
      blockedAt w (num_of (rd array 0)) (num_of (rd array 1))
    \<longrightarrow> clientStateReceived w client array = w) \<and>
   (clientToEntity w (cl_id client) = Some entity \<and>
      \<not> blockedAt w (num_of (rd array 0)) (num_of (rd array 1))
    \<longrightarrow> e_x (heap (clientStateReceived w client array) entity) =
          (if 0 < length array then Num (of_int (uint (array ! 0))) else Undefined) \<and>
        e_y (heap (clientStateReceived w client array) entity) =
          (if 1 < length array then Num (of_int (uint (array ! 1))) else Undefined) \<and>
        e_left (heap (clientStateReceived w client array) entity) =
          (2 < length array \<and> bit (array ! 2) 0) \<and>
        e_right (heap (clientStateReceived w client array) entity) =
          (2 < length array \<and> bit (array ! 2) 1) \<and>
        e_up (heap (clientStateReceived w client array) entity) =
          (2 < length array \<and> bit (array ! 2) 2) \<and>
        e_down (heap (clientStateReceived w client array) entity) =
          (2 < length array \<and> bit (array ! 2) 3))"
proof (intro conjI impI)
  assume "clientToEntity w (cl_id client) = None \<or>
    blockedAt w (num_of (rd array 0)) (num_of (rd array 1))"
  then show "clientStateReceived w client array = w"
    using clientStateReceived_unbound clientStateReceived_blocked by blast
next
  assume a: "clientToEntity w (cl_id client) = Some entity \<and>
    \<not> blockedAt w (num_of (rd array 0)) (num_of (rd array 1))"
  then have eq: "clientStateReceived w client array =
           w\<lparr>heap := (heap w)(entity :=
               updateState (heap w entity) (num_of (rd array 0)) (num_of (rd array 1))
                 (e_type (heap w entity)) (flag_set (rd array 2) LEFT)
                 (flag_set (rd array 2) RIGHT) (flag_set (rd array 2) UP)
                 (flag_set (rd array 2) DOWN))\<rparr>"
    by (simp add: clientStateReceived_accepted)
  show "e_x (heap (clientStateReceived w client array) entity) =
      (if 0 < length array then Num (of_int (uint (array ! 0))) else Undefined)"
    by (simp add: eq updateState_def num_of_rd)
  show "e_y (heap (clientStateReceived w client array) entity) =
      (if 1 < length array then Num (of_int (uint (array ! 1))) else Undefined)"
    by (simp add: eq updateState_def num_of_rd)
  show "e_left (heap (clientStateReceived w client array) entity) =
      (2 < length array \<and> bit (array ! 2) 0)"
    by (simp add: eq updateState_def flag_set_rd)
  show "e_right (heap (clientStateReceived w client array) entity) =
      (2 < length array \<and> bit (array ! 2) 1)"
    by (simp add: eq updateState_def flag_set_rd)
  show "e_up (heap (clientStateReceived w client array) entity) =
      (2 < length array \<and> bit (array ! 2) 2)"
    by (simp add: eq updateState_def flag_set_rd)
  show "e_down (heap (clientStateReceived w client array) entity) =
      (2 < length array \<and> bit (array ! 2) 3)"
    by (simp add: eq updateState_def flag_set_rd)
qed

text \<open>
  At the wall: client 2 has no entity; client 1 reports \<open>(108, 100)\<close>, which is
  blocked; then \<open>(92, 100)\<close> with control word 1, which is accepted and sets \<open>left\<close>
  alone; then \<open>(92, 90)\<close> with control word 10, which sets \<open>right\<close> and \<open>down\<close>; then the
  two words \<open>(92, 90)\<close> without a control word, which sets no flag.
\<close>

theorem clientStateReceived_validates_witness:
  "clientToEntity (server_with idle_7) (cl_id (new_WebChannelClient 2 ''bob'')) = None \<and>
   clientStateReceived (server_with idle_7) (new_WebChannelClient 2 ''bob'') [92, 100, 1] =
     server_with idle_7 \<and>
   blockedAt (server_with idle_7) (num_of (rd [108, 100, 1] 0)) (num_of (rd [108, 100, 1] 1)) \<and>
   clientStateReceived (server_with idle_7) (new_WebChannelClient 1 ''ann'') [108, 100, 1] =
     server_with idle_7 \<and>
   clientToEntity (server_with idle_7) (cl_id (new_WebChannelClient 1 ''ann'')) = Some 0 \<and>
   \<not> blockedAt (server_with idle_7) (num_of (rd [92, 100, 1] 0)) (num_of (rd [92, 100, 1] 1)) \<and>
   heap (clientStateReceived (server_with idle_7) (new_WebChannelClient 1 ''ann'')
          [92, 100, 1]) 0 =
     idle_7\<lparr>e_x := Num 92, e_y := Num 100, e_left := True, e_right := False, e_up := False,
       e_down := False\<rparr> \<and>
   \<not> blockedAt (server_with walking_7) (num_of (rd [92, 90, 10] 0))
       (num_of (rd [92, 90, 10] 1)) \<and>
   heap (clientStateReceived (server_with walking_7) (new_WebChannelClient 1 ''ann'')
          [92, 90, 10]) 0 =
     idle_7\<lparr>e_x := Num 92, e_y := Num 90, e_left := False, e_right := True, e_up := False,
       e_down := True\<rparr> \<and>
   heap (clientStateReceived (server_with walking_7) (new_WebChannelClient 1 ''ann'')
          [92, 90]) 0 =
     idle_7\<lparr>e_x := Num 92, e_y := Num 90, e_left := False, e_right := False, e_up := False,
       e_down := False\<rparr>"
proof -
  have h1: "clientToEntity (server_with idle_7) (cl_id (new_WebChannelClient 2 ''bob'')) = None"
    by (simp add: world_simps new_WebChannelClient_def)
  have h2: "blockedAt (server_with idle_7) (num_of (rd [108, 100, 1] 0))
              (num_of (rd [108, 100, 1] 1))"
    by (simp add: world_simps rd_def)
  have h3: "clientToEntity (server_with e) (cl_id (new_WebChannelClient 1 ''ann'')) = Some 0"
    for e
    by (simp add: world_simps new_WebChannelClient_def)
  have h4: "\<not> blockedAt (server_with idle_7) (num_of (rd [92, 100, 1] 0))
              (num_of (rd [92, 100, 1] 1))"
    and h5: "\<not> blockedAt (server_with walking_7) (num_of (rd [92, 90, 10] 0))
              (num_of (rd [92, 90, 10] 1))"
    and h6: "\<not> blockedAt (server_with walking_7) (num_of (rd [92, 90] 0))
              (num_of (rd [92, 90] 1))"
    by (simp_all add: world_simps rd_def)
  have rest: "heap (clientStateReceived (server_with e) c a) 0 =
      e\<lparr>e_x := e_x (heap (clientStateReceived (server_with e) c a) 0),
        e_y := e_y (heap (clientStateReceived (server_with e) c a) 0),
        e_left := e_left (heap (clientStateReceived (server_with e) c a) 0),
        e_right := e_right (heap (clientStateReceived (server_with e) c a) 0),
        e_up := e_up (heap (clientStateReceived (server_with e) c a) 0),
        e_down := e_down (heap (clientStateReceived (server_with e) c a) 0)\<rparr>" for e c a
    by (simp add: clientStateReceived_def updateState_def world_simps Let_def
        split: option.splits)
  have a: "clientStateReceived (server_with idle_7) (new_WebChannelClient 2 ''bob'')
      [92, 100, 1] = server_with idle_7"
    using h1 clientStateReceived_validates
      [of "server_with idle_7" "new_WebChannelClient 2 ''bob''" "[92, 100, 1]" 0]
    by simp
  have b: "clientStateReceived (server_with idle_7) (new_WebChannelClient 1 ''ann'')
      [108, 100, 1] = server_with idle_7"
    using h2 clientStateReceived_validates
      [of "server_with idle_7" "new_WebChannelClient 1 ''ann''" "[108, 100, 1]" 0]
    by simp
  have c: "heap (clientStateReceived (server_with idle_7) (new_WebChannelClient 1 ''ann'')
          [92, 100, 1]) 0 =
     idle_7\<lparr>e_x := Num 92, e_y := Num 100, e_left := True, e_right := False, e_up := False,
       e_down := False\<rparr>"
    using h3 [of idle_7] h4 clientStateReceived_validates
      [of "server_with idle_7" "new_WebChannelClient 1 ''ann''" "[92, 100, 1]" 0]
    by (subst rest) simp
  have d: "heap (clientStateReceived (server_with walking_7) (new_WebChannelClient 1 ''ann'')
          [92, 90, 10]) 0 =
     idle_7\<lparr>e_x := Num 92, e_y := Num 90, e_left := False, e_right := True, e_up := False,
       e_down := True\<rparr>"
    using h3 [of walking_7] h5 clientStateReceived_validates
      [of "server_with walking_7" "new_WebChannelClient 1 ''ann''" "[92, 90, 10]" 0]
    by (subst rest) (simp add: walking_7_def)
  have e: "heap (clientStateReceived (server_with walking_7) (new_WebChannelClient 1 ''ann'')
          [92, 90]) 0 =
     idle_7\<lparr>e_x := Num 92, e_y := Num 90, e_left := False, e_right := False, e_up := False,
       e_down := False\<rparr>"
    using h3 [of walking_7] h6 clientStateReceived_validates
      [of "server_with walking_7" "new_WebChannelClient 1 ''ann''" "[92, 90]" 0]
    by (subst rest) (simp add: walking_7_def)
  from h1 h2 h3 [of idle_7] h4 h5 a b c d e
  show ?thesis by simp
qed

text \<open>
  Claim C10. An accepted state report changes nothing but the fields \<open>x\<close>, \<open>y\<close>,
  \<open>left\<close>, \<open>right\<close>, \<open>up\<close> and \<open>down\<close> of the bound entity: its id, type, \<open>faceLeft\<close>
  and \<open>moving\<close> stay, putting the six fields back gives the entity as it was, every other
  object is untouched, and so is the rest of the server world.
\<close>

theorem accepted_report_frame:
  assumes "clientToEntity w (cl_id client) = Some entity"
    and "\<not> blockedAt w (num_of (rd array 0)) (num_of (rd array 1))"
  shows "e_type (heap (clientStateReceived w client array) entity) = e_type (heap w entity) \<and>
         e_faceLeft (heap (clientStateReceived w client array) entity) =
           e_faceLeft (heap w entity) \<and>
         e_moving (heap (clientStateReceived w client array) entity) =
           e_moving (heap w entity) \<and>
         e_id (heap (clientStateReceived w client array) entity) = e_id (heap w entity) \<and>
         (heap (clientStateReceived w client array) entity)
           \<lparr>e_x := e_x (heap w entity), e_y := e_y (heap w entity),
            e_left := e_left (heap w entity), e_right := e_right (heap w entity),
            e_up := e_up (heap w entity), e_down := e_down (heap w entity)\<rparr> = heap w entity \<and>
         (\<forall>r. r \<noteq> entity \<longrightarrow> heap (clientStateReceived w client array) r = heap w r) \<and>
         (clientStateReceived w client array)\<lparr>heap := heap w\<rparr> = w"
  unfolding clientStateReceived_accepted [OF assms]
  by (simp add: updateState_def)

theorem accepted_report_frame_witness:
  "clientToEntity (server_with walking_7) (cl_id (new_WebChannelClient 1 ''ann'')) = Some 0 \<and>
   \<not> blockedAt (server_with walking_7) (num_of (rd [92, 100, 1] 0))
       (num_of (rd [92, 100, 1] 1)) \<and>
   e_type (heap (clientStateReceived (server_with walking_7) (new_WebChannelClient 1 ''ann'')
            [92, 100, 1]) 0) = Num 2 \<and>
   e_faceLeft (heap (clientStateReceived (server_with walking_7)
            (new_WebChannelClient 1 ''ann'') [92, 100, 1]) 0) \<and>
   \<not> e_moving (heap (clientStateReceived (server_with walking_7)
            (new_WebChannelClient 1 ''ann'') [92, 100, 1]) 0)"
proof -
  have h1: "clientToEntity (server_with walking_7) (cl_id (new_WebChannelClient 1 ''ann''))
              = Some 0"
    by (simp add: world_simps new_WebChannelClient_def)
  have h2: "\<not> blockedAt (server_with walking_7) (num_of (rd [92, 100, 1] 0))
              (num_of (rd [92, 100, 1] 1))"
    by (simp add: world_simps rd_def)
  have old: "heap (server_with walking_7) 0 = walking_7"
    by (simp add: world_simps)
  from h1 h2 accepted_report_frame [OF h1 h2] show ?thesis
    unfolding old by (simp add: world_simps)
qed

text \<open>
  Claim C2, at the snapshot of scenario A: one idle entity 7 of type 2 at \<open>(100, 100)\<close>,
  sequence number 1. The server writes the sequence number in one word and the record
  from word 1 on; the client takes word 1, the id, as the high half of the sequence
  number, and reads a record from word 2 on, so that it builds an entity with id 100 at
  \<open>(100, 2)\<close> of type 0 and accepts 458753 as sequence number.
\<close>

theorem snapshot_layouts_disagree:
  "createState (server_with idle_7) 1 = [1, 7, 100, 100, 2, 0] \<and>
   decodeSeq (createState (server_with idle_7) 1) = 458753 \<and>
   lastSequenceNumber (handleState (new_ClientWorld open_map)
     (createState (server_with idle_7) 1)) = 458753 \<and>
   entities (handleState (new_ClientWorld open_map) (createState (server_with idle_7) 1)) = [0] \<and>
   e_id (heap (handleState (new_ClientWorld open_map)
     (createState (server_with idle_7) 1)) 0) = 100 \<and>
   e_x (heap (handleState (new_ClientWorld open_map)
     (createState (server_with idle_7) 1)) 0) = Num 100 \<and>
   e_y (heap (handleState (new_ClientWorld open_map)
     (createState (server_with idle_7) 1)) 0) = Num 2 \<and>
   e_type (heap (handleState (new_ClientWorld open_map)
     (createState (server_with idle_7) 1)) 0) = Num 0"
proof -
  have c: "createState (server_with idle_7) 1 = [1, 7, 100, 100, 2, 0]"
    by (simp add: createState_def controlBits_def Let_def world_simps)
  show ?thesis
    unfolding c
    by (simp add: handleState_def decodeSeq_def rd_def applyLoop.simps applyRecord_def
        find_entity_def getLocalEntity_def updateState_def flag_set_def
        removeUnmentioned_def Let_def world_simps const_simps)
qed

section \<open>Properties of the client world\<close>

lemmas handleState_eval =
  handleState_def decodeSeq_def rd_def applyLoop.simps applyRecord_def find_entity_def
  getLocalEntity_def updateState_def flag_set_def removeUnmentioned_def Let_def

text \<open>
  Claim C1, at the example of the specification: the last accepted sequence number is
  the ceiling 50000 and the server, having wrapped, sends sequence number 5. The
  comparison of \<open>handleState\<close> has no allowance for the wrap (its comment speaks of one):
  the snapshot is dropped and the client stays as it was.
\<close>

theorem wrapped_snapshot_is_discarded:
  "decodeSeq [5, 0, 7, 100, 100, 2, 0] = 5 \<and>
   lastSequenceNumber ((new_ClientWorld open_map)\<lparr>lastSequenceNumber := 50000\<rparr>) = 50000 \<and>
   handleState ((new_ClientWorld open_map)\<lparr>lastSequenceNumber := 50000\<rparr>)
       [5, 0, 7, 100, 100, 2, 0]
     = (new_ClientWorld open_map)\<lparr>lastSequenceNumber := 50000\<rparr>"
proof -
  have d: "decodeSeq [5, 0, 7, 100, 100, 2, 0] = 5"
    by (simp add: decodeSeq_def rd_def)
  show ?thesis
    by (simp add: handleState_def d)
qed

subsection \<open>One record of a snapshot\<close>









subsection \<open>Stale snapshots\<close>

lemma applyRecord_lastSequenceNumber:
  "lastSequenceNumber (fst (applyRecord w i x y t c)) = lastSequenceNumber w"
  by (simp add: applyRecord_def Let_def split: option.splits)

lemma applyLoop_lastSequenceNumber:
  "lastSequenceNumber (fst (applyLoop state index w u)) = lastSequenceNumber w"
proof (induction state index w u rule: applyLoop.induct)
  case (1 state index w u)
  show ?case
  proof (cases "index < length state")
    case True
    then show ?thesis
      using "1.IH" [OF True refl]
      by (subst applyLoop.simps) (simp add: Let_def applyRecord_lastSequenceNumber)
  next
    case False
    then show ?thesis by (subst applyLoop.simps) simp
  qed
qed

lemma moveEntities_lastSequenceNumber:
  "lastSequenceNumber (moveEntities w ex) = lastSequenceNumber w"
  by (simp add: moveEntities_def Let_def)

lemma replay_lastSequenceNumber:
  "lastSequenceNumber (((\<lambda>w. moveEntities w (getLocalEntity w)) ^^ n) w) =
     lastSequenceNumber w"
  by (induction n) (simp_all add: moveEntities_lastSequenceNumber)

text \<open>After \<open>handleState\<close> the last accepted number is the larger of the two.\<close>

lemma handleState_lastSequenceNumber:
  "lastSequenceNumber (handleState w state) = max (decodeSeq state) (lastSequenceNumber w)"
proof (cases "decodeSeq state \<le> lastSequenceNumber w")
  case True
  then show ?thesis by (simp add: handleState_def Let_def)
next
  case False
  obtain w1 u where
    l: "applyLoop state 2 (w\<lparr>lastSequenceNumber := decodeSeq state\<rparr>) [] = (w1, u)"
    by (cases "applyLoop state 2 (w\<lparr>lastSequenceNumber := decodeSeq state\<rparr>) []")
  have "lastSequenceNumber w1 = decodeSeq state"
    using applyLoop_lastSequenceNumber
      [of state 2 "w\<lparr>lastSequenceNumber := decodeSeq state\<rparr>" "[]"] l
    by simp
  with False l show ?thesis
    by (simp add: handleState_def Let_def replay_lastSequenceNumber)
qed

text \<open>
  Claim C5. A snapshot whose decoded sequence number is at most the last accepted one
  leaves the whole client state as it was: entities, objects and the last accepted
  number. And handling the same snapshot a second time changes nothing, whatever the
  first handling did.
\<close>

theorem stale_snapshot_is_dropped:
  "(decodeSeq state \<le> lastSequenceNumber w \<longrightarrow> handleState w state = w) \<and>
   handleState (handleState w state) state = handleState w state"
proof
  show "decodeSeq state \<le> lastSequenceNumber w \<longrightarrow> handleState w state = w"
    by (simp add: handleState_def)
  have "decodeSeq state \<le> lastSequenceNumber (handleState w state)"
    by (simp add: handleState_lastSequenceNumber)
  then show "handleState (handleState w state) state = handleState w state"
    by (simp add: handleState_def [of "handleState w state"])
qed

text \<open>
  Scenario D: the client has accepted sequence number 10; the snapshot with number 9 is
  ignored and the number stays 10. A client without entities that handles the snapshot
  of number 10 twice creates entity 9 the first time only.
\<close>

theorem stale_snapshot_is_dropped_witness:
  "decodeSeq [9, 0, 9, 60, 50, 3, 2] \<le> lastSequenceNumber predicting_client \<and>
   handleState predicting_client [9, 0, 9, 60, 50, 3, 2] = predicting_client \<and>
   lastSequenceNumber (handleState predicting_client [9, 0, 9, 60, 50, 3, 2]) = 10 \<and>
   decodeSeq [10, 0, 9, 60, 50, 3, 2] > lastSequenceNumber identified_client \<and>
   entities (handleState identified_client [10, 0, 9, 60, 50, 3, 2]) = [0] \<and>
   handleState (handleState identified_client [10, 0, 9, 60, 50, 3, 2])
       [10, 0, 9, 60, 50, 3, 2]
     = handleState identified_client [10, 0, 9, 60, 50, 3, 2]"
proof -
  have d9: "decodeSeq [9, 0, 9, 60, 50, 3, 2] = 9"
    and d10: "decodeSeq [10, 0, 9, 60, 50, 3, 2] = 10"
    by (simp_all add: decodeSeq_def rd_def)
  have l: "lastSequenceNumber predicting_client = 10"
    "lastSequenceNumber identified_client = 0"
    by (simp_all add: world_simps)
  have e: "entities (handleState identified_client [10, 0, 9, 60, 50, 3, 2]) = [0]"
    by (simp add: handleState_eval world_simps const_simps)
  from d9 d10 l e
    stale_snapshot_is_dropped [of "[9, 0, 9, 60, 50, 3, 2]" predicting_client]
    stale_snapshot_is_dropped [of "[10, 0, 9, 60, 50, 3, 2]" identified_client]
  show ?thesis by simp
qed

subsection \<open>An accepted snapshot\<close>































section \<open>Properties of the transport\<close>

text \<open>
  Claim C3, on the client side. Both channels of the server arrive, then the ordered
  channel opens, then the unordered one. \<open>WebChannel\<close> takes itself for connected as
  soon as it holds both channel objects, open or not, so \<open>onConnect\<close> is invoked at the
  first open event, when the unordered channel is not open yet, and again at the second.
\<close>

theorem channel_reports_connect_twice:
  "ch_fired (channel_run [DataChannelOrdered, DataChannelUnordered] new_WebChannel) = [] \<and>
   ch_fired (channel_run [DataChannelOrdered, DataChannelUnordered, OrderedStatus Open]
      new_WebChannel) = [OnConnect] \<and>
   ch_fired (channel_run
      [DataChannelOrdered, DataChannelUnordered, OrderedStatus Open, UnorderedStatus Open]
      new_WebChannel) = [OnConnect, OnConnect]"
  by (simp add: channel_run_def new_WebChannel_def receiveOrderedChannel_def
      receiveUnorderedChannel_def handleOrderedReceiveChannelStatusChange_def
      handleUnorderedReceiveChannelStatusChange_def ch_connected_def)

text \<open>
  When each channel opens before the other one arrives, the second open event is the only
  one at which both channel objects are held, and \<open>onConnect\<close> is invoked once.
\<close>

lemma channel_reports_connect_once_if_opened_on_arrival:
  "ch_fired (channel_run
      [DataChannelOrdered, OrderedStatus Open, DataChannelUnordered, UnorderedStatus Open]
      new_WebChannel) = [OnConnect]"
  by (simp add: channel_run_def new_WebChannel_def receiveOrderedChannel_def
      receiveUnorderedChannel_def handleOrderedReceiveChannelStatusChange_def
      handleUnorderedReceiveChannelStatusChange_def ch_connected_def)

text \<open>
  The server side keeps a flag for each channel that has opened, and on the same two open
  events it invokes \<open>onConnect\<close> once, at the second.
\<close>

lemma server_reports_connect_once:
  "srv_fired (fst (handleOrderedStatusChange Open
      (connectionRequest new_WebChannelServer ''ann''))) = [] \<and>
   srv_fired (fst (handleUnorderedStatusChange Open (handleOrderedStatusChange Open
      (connectionRequest new_WebChannelServer ''ann'')))) = [(OnConnect, 1)]"
  by (simp add: handleOrderedStatusChange_def handleUnorderedStatusChange_def
      connectionRequest_def new_WebChannelServer_def new_WebChannelClient_def
      cl_connected_def Let_def)

subsection \<open>The roster\<close>

text \<open>The roster never holds a client twice, and every client in it has an id in use.\<close>

lemma reachable_roster:
  "reachable s \<Longrightarrow> distinct (clients s) \<and> (\<forall>c\<in>set (clients s). c < nextId s)"
proof (induction rule: reachable.induct)
  case (start s)
  then show ?case by simp
next
  case (connect s username)
  then show ?case by (auto simp: connectionRequest_def Let_def new_WebChannelClient_def)
next
  case (remove s client)
  then show ?case by (auto simp: removeClient_def)
next
  case (other s s')
  then show ?case by simp
qed

text \<open>
  Claim C9. For every roster the server can hold and every client, \<open>removeClient\<close> of a
  client that is not in the roster leaves the server as it is, and a second
  \<open>removeClient\<close> of the same client changes nothing after the first.
\<close>

theorem removeClient_idempotent:
  assumes "reachable s"
  shows "(client \<notin> set (clients s) \<longrightarrow> removeClient s client = s) \<and>
         removeClient (removeClient s client) client = removeClient s client"
proof
  show "client \<notin> set (clients s) \<longrightarrow> removeClient s client = s"
    by (simp add: removeClient_def)
  have "distinct (clients s)"
    using reachable_roster [OF assms] by simp
  then have "client \<notin> set (clients (removeClient s client))"
    by (simp add: removeClient_def)
  then show "removeClient (removeClient s client) client = removeClient s client"
    by (simp add: removeClient_def [of "removeClient s client"])
qed

text \<open>Two clients connect; client 1 is removed twice, and client 5 never connected.\<close>

theorem removeClient_idempotent_witness:
  "reachable (fst (connectionRequest (fst (connectionRequest new_WebChannelServer ''ann''))
      ''bob'')) \<and>
   clients (fst (connectionRequest (fst (connectionRequest new_WebChannelServer ''ann''))
      ''bob'')) = [1, 2] \<and>
   removeClient (fst (connectionRequest (fst (connectionRequest new_WebChannelServer ''ann''))
      ''bob'')) 5
     = fst (connectionRequest (fst (connectionRequest new_WebChannelServer ''ann'')) ''bob'') \<and>
   clients (removeClient (fst (connectionRequest
      (fst (connectionRequest new_WebChannelServer ''ann'')) ''bob'')) 1) = [2] \<and>
   clients (removeClient (removeClient (fst (connectionRequest
      (fst (connectionRequest new_WebChannelServer ''ann'')) ''bob'')) 1) 1) = [2]"
proof -
  have r: "reachable (fst (connectionRequest
      (fst (connectionRequest new_WebChannelServer ''ann'')) ''bob''))"
    by (intro reachable.connect reachable.start) (simp_all add: new_WebChannelServer_def)
  have c: "clients (fst (connectionRequest
      (fst (connectionRequest new_WebChannelServer ''ann'')) ''bob'')) = [1, 2]"
    by (simp add: connectionRequest_def new_WebChannelServer_def new_WebChannelClient_def
        Let_def)
  have o: "clients (removeClient (fst (connectionRequest
      (fst (connectionRequest new_WebChannelServer ''ann'')) ''bob'')) 1) = [2]"
    by (simp add: removeClient_def c)
  from r c o removeClient_idempotent [OF r, of 5] removeClient_idempotent [OF r, of 1]
  show ?thesis by simp
qed

end
